theory Spec2Isabelle
  imports Complex_Main
begin

section \<open>Numbers and the random source\<close>

text \<open>
  The program is \<^verbatim>\<open>src/main.js\<close>. Its two algorithmic functions are
  \<^verbatim>\<open>buildTremas\<close> (lines 73-92) and \<^verbatim>\<open>generatePointsFromTremas\<close>
  (lines 95-129); both draw from \<^verbatim>\<open>rand\<close> and \<^verbatim>\<open>randRange\<close> (lines 69-70).

  Conventions of the embedding:
  \<^item> a JavaScript Number is a \<^typ>\<open>real\<close>: arithmetic and comparisons are exact, and
    storing a list in a \<^verbatim>\<open>Float32Array\<close> keeps every component as it is. Rounding
    (of doubles, and of the 32-bit storage) is outside the model;
  \<^item> loop counters, \<^verbatim>\<open>depth\<close>, \<^verbatim>\<open>samples\<close> and circle levels are integers;
  \<^item> \<^verbatim>\<open>Math.random\<close> is an infinite sequence of draws \<open>g\<close> together with a
    cursor: the \<open>k\<close>-th call returns \<open>g k\<close>. Every function that draws takes the
    cursor and returns the advanced one. Where a property needs the draws to lie in
    \<open>[0,1)\<close>, as \<^verbatim>\<open>Math.random\<close> promises, it says so.
\<close>

type_synonym draws = "nat \<Rightarrow> real"

text \<open>Line 69: \<^verbatim>\<open>function rand() { return Math.random(); }\<close>\<close>

definition rand :: "draws \<Rightarrow> nat \<Rightarrow> real \<times> nat" where
  "rand g k = (g k, k + 1)"

text \<open>Line 70: \<^verbatim>\<open>function randRange(a,b){ return a + (b-a)*rand(); }\<close>\<close>

definition randRange :: "real \<Rightarrow> real \<Rightarrow> draws \<Rightarrow> nat \<Rightarrow> real \<times> nat" where
  "randRange a b g k = (case rand g k of (u, k') \<Rightarrow> (a + (b - a) * u, k'))"

section \<open>The exclusion field: buildTremas\<close>

text \<open>Line 74: a trema is an object \<^verbatim>\<open>{cx,cy,r,level}\<close>.\<close>

record trema =
  cx :: real
  cy :: real
  r :: real
  level :: int

text \<open>
  Lines 84-88, the body of the inner loop: three draws (centre x, centre y, radius
  jitter, in this order) and one \<^verbatim>\<open>push\<close>. The state is the array built so far and
  the cursor of the random source.
\<close>

definition pushTrema :: "draws \<Rightarrow> real \<Rightarrow> int \<Rightarrow> trema list \<times> nat \<Rightarrow> trema list \<times> nat" where
  "pushTrema g levelRadius lev st =
     (case st of (tremas, k) \<Rightarrow>
      case randRange (- 1) 1 g k of (x, k1) \<Rightarrow>
      case randRange (- 1) 1 g k1 of (y, k2) \<Rightarrow>
      case rand g k2 of (u, k3) \<Rightarrow>
        (tremas @ [\<lparr>cx = x, cy = y, r = levelRadius * (0.8 + 0.4 * u), level = lev\<rparr>], k3))"

text \<open>Line 83: \<^verbatim>\<open>for (let i=0;i<count;i++)\<close>.\<close>

function tremasOfLevel ::
  "draws \<Rightarrow> real \<Rightarrow> int \<Rightarrow> int \<Rightarrow> nat \<Rightarrow> trema list \<times> nat \<Rightarrow> trema list \<times> nat" where
  "tremasOfLevel g levelRadius lev count i st =
     (if int i < count
      then tremasOfLevel g levelRadius lev count (Suc i) (pushTrema g levelRadius lev st)
      else st)"
  by pat_completeness auto
termination
  by (relation "measure (\<lambda>(g, levelRadius, lev, count, i, st). nat (count - int i))") auto

declare tremasOfLevel.simps [simp del]

text \<open>Line 82: the number of tremas of a level.\<close>

definition levelCount :: "real \<Rightarrow> nat \<Rightarrow> int" where
  "levelCount density lev = max 1 \<lfloor>density * 2 ^ (lev + 1) * 30\<rfloor>"

text \<open>
  Lines 77-90: \<^verbatim>\<open>for (let level=0; level<depth; level++)\<close>, with
  \<^verbatim>\<open>scale = Math.pow(0.5, level)\<close> and \<^verbatim>\<open>levelRadius = baseRadius * scale\<close>.
\<close>

function buildLevels ::
  "draws \<Rightarrow> int \<Rightarrow> real \<Rightarrow> real \<Rightarrow> nat \<Rightarrow> trema list \<times> nat \<Rightarrow> trema list \<times> nat" where
  "buildLevels g depth density baseRadius lev st =
     (if int lev < depth
      then let scale = 0.5 ^ lev;
               levelRadius = baseRadius * scale;
               count = levelCount density lev
           in buildLevels g depth density baseRadius (Suc lev)
                (tremasOfLevel g levelRadius (int lev) count 0 st)
      else st)"
  by pat_completeness auto
termination
  by (relation "measure (\<lambda>(g, depth, density, baseRadius, lev, st). nat (depth - int lev))") auto

declare buildLevels.simps [simp del]

text \<open>
  Lines 73-92. The result is the array of tremas; the second component is the cursor
  of the random source after the call.
\<close>

definition buildTremas :: "draws \<Rightarrow> nat \<Rightarrow> int \<Rightarrow> real \<Rightarrow> real \<Rightarrow> trema list \<times> nat" where
  "buildTremas g k depth density baseRadius = buildLevels g depth density baseRadius 0 ([], k)"

section \<open>The sampler: generatePointsFromTremas\<close>

text \<open>
  Lines 96-99: the three output arrays and the attempt counter, and the cursor of the
  random source.
\<close>

record sampler =
  positions :: "real list"
  colors :: "real list"
  levels :: "real list"
  attempts :: nat
  cursor :: nat

text \<open>Lines 106-111: the rejection test, a scan that stops at the first hit.\<close>

fun insideAny :: "trema list \<Rightarrow> real \<Rightarrow> real \<Rightarrow> bool" where
  "insideAny [] x y = False"
| "insideAny (c # cs) x y =
     (let dx = x - cx c; dy = y - cy c
      in if dx * dx + dy * dy < r c * r c then True else insideAny cs x y)"

text \<open>
  Lines 118-124: the scan for the nearest trema, from \<^verbatim>\<open>nearLevel = 0\<close> and
  \<^verbatim>\<open>minD = 1e9\<close>.
\<close>

fun nearestScan :: "trema list \<Rightarrow> real \<Rightarrow> real \<Rightarrow> int \<times> real \<Rightarrow> int \<times> real" where
  "nearestScan [] x y (nearLevel, minD) = (nearLevel, minD)"
| "nearestScan (c # cs) x y (nearLevel, minD) =
     (let d2 = (x - cx c) * (x - cx c) + (y - cy c) * (y - cy c)
      in if d2 < minD then nearestScan cs x y (level c, d2)
         else nearestScan cs x y (nearLevel, minD))"

text \<open>
  Line 125, the divisor:
  \<^verbatim>\<open>Math.max(1, tremas.length>0 ? Math.max(...tremas.map(t=>t.level)) : 1)\<close>.
\<close>

definition levelDivisor :: "trema list \<Rightarrow> int" where
  "levelDivisor tremas =
     max 1 (case map level tremas of [] \<Rightarrow> 1 | l # ls \<Rightarrow> foldl max l ls)"

definition levelFactor :: "trema list \<Rightarrow> real \<Rightarrow> real \<Rightarrow> real" where
  "levelFactor tremas x y =
     (case nearestScan tremas x y (0, 1000000000) of
        (nearLevel, minD) \<Rightarrow> real_of_int nearLevel / real_of_int (levelDivisor tremas))"

text \<open>
  Lines 102-126, the body of the \<^verbatim>\<open>while\<close> loop. The draws are taken in the
  order of evaluation: x, y, then \<^verbatim>\<open>cval\<close> (the third colour channel), then the first
  and the second colour channel.
\<close>

definition sampleBody :: "draws \<Rightarrow> trema list \<Rightarrow> sampler \<Rightarrow> sampler" where
  "sampleBody g tremas s =
     (case randRange (- 1) 1 g (cursor s) of (x, k1) \<Rightarrow>
      case randRange (- 1) 1 g k1 of (y, k2) \<Rightarrow>
      if \<not> insideAny tremas x y then
        (case rand g k2 of (u0, k3) \<Rightarrow>
         case rand g k3 of (u1, k4) \<Rightarrow>
         case rand g k4 of (u2, k5) \<Rightarrow>
         let cval = 0.4 + 0.6 * u0 in
           \<lparr>positions = positions s @ [x, y],
            colors = colors s @ [0.2 + 0.6 * u1, 0.35 + 0.55 * u2, cval],
            levels = levels s @ [levelFactor tremas x y],
            attempts = attempts s + 1,
            cursor = k5\<rparr>)
      else s\<lparr>attempts := attempts s + 1, cursor := k2\<rparr>)"

text \<open>Line 101: the loop condition.\<close>

definition sampleCond :: "int \<Rightarrow> int \<Rightarrow> sampler \<Rightarrow> bool" where
  "sampleCond samples maxAttempts s \<longleftrightarrow>
     real (length (positions s)) / 2 < real_of_int samples \<and> int (attempts s) < maxAttempts"

function sampleLoop :: "draws \<Rightarrow> trema list \<Rightarrow> int \<Rightarrow> int \<Rightarrow> sampler \<Rightarrow> sampler" where
  "sampleLoop g tremas samples maxAttempts s =
     (if sampleCond samples maxAttempts s
      then sampleLoop g tremas samples maxAttempts (sampleBody g tremas s)
      else s)"
  by pat_completeness auto
termination
  by (relation "measure (\<lambda>(g, tremas, samples, maxAttempts, s). nat (maxAttempts - int (attempts s)))")
     (auto simp: sampleCond_def sampleBody_def Let_def split: prod.splits)

declare sampleLoop.simps [simp del]

text \<open>
  Lines 95-129. The returned object is the three arrays of the final state; the state
  also carries the number of loop iterations and the cursor of the random source.
\<close>

definition generatePointsFromTremas :: "draws \<Rightarrow> nat \<Rightarrow> trema list \<Rightarrow> int \<Rightarrow> sampler" where
  "generatePointsFromTremas g k tremas samples =
     (let maxAttempts = samples * 10
      in sampleLoop g tremas samples maxAttempts
           \<lparr>positions = [], colors = [], levels = [], attempts = 0, cursor = k\<rparr>)"

section \<open>Notions used to state the properties\<close>

text \<open>
  The accepted points of a sampler state, read off the three flat arrays: point \<open>m\<close>
  has the coordinates \<open>positions ! (2 * m)\<close> and \<open>positions ! (2 * m + 1)\<close>, the colour
  channels \<open>colors ! (3 * m)\<close>, \<open>colors ! (3 * m + 1)\<close> and \<open>colors ! (3 * m + 2)\<close>, and
  the level factor \<open>levels ! m\<close>. \<open>everyPoint Q s\<close> says that the arrays are parallel
  and that \<open>Q\<close> holds of every point.
\<close>

definition everyPoint ::
  "(real \<Rightarrow> real \<Rightarrow> real \<Rightarrow> real \<Rightarrow> real \<Rightarrow> real \<Rightarrow> bool) \<Rightarrow> sampler \<Rightarrow> bool" where
  "everyPoint Q s \<longleftrightarrow>
     length (positions s) = 2 * length (levels s) \<and>
     length (colors s) = 3 * length (levels s) \<and>
     (\<forall>m<length (levels s).
        Q (positions s ! (2 * m)) (positions s ! (2 * m + 1))
          (colors s ! (3 * m)) (colors s ! (3 * m + 1)) (colors s ! (3 * m + 2))
          (levels s ! m))"

text \<open>The bounds the loop keeps on the number of points and of iterations.\<close>

definition bounded :: "int \<Rightarrow> int \<Rightarrow> sampler \<Rightarrow> bool" where
  "bounded samples maxAttempts s \<longleftrightarrow>
     length (positions s) = 2 * length (levels s)
     \<and> int (length (levels s)) \<le> max 0 samples
     \<and> int (attempts s) \<le> max 0 maxAttempts"

text \<open>Every candidate so far was accepted, with level factor 0.\<close>

definition allAccepted :: "sampler \<Rightarrow> bool" where
  "allAccepted s \<longleftrightarrow> attempts s = length (levels s) \<and> set (levels s) \<subseteq> {0}"

text \<open>The squared distance from the point \<open>(x, y)\<close> to the centre of a trema.\<close>

definition dist2 :: "real \<Rightarrow> real \<Rightarrow> trema \<Rightarrow> real" where
  "dist2 x y c = (x - cx c) * (x - cx c) + (y - cy c) * (y - cy c)"

text \<open>
  What the inner loop of \<^verbatim>\<open>buildTremas\<close> appends for one level: \<open>n\<close> tremas, read from
  the draws \<open>k, k + 1, ..., k + 3 * n - 1\<close>.
\<close>

fun levelTremas :: "draws \<Rightarrow> real \<Rightarrow> int \<Rightarrow> nat \<Rightarrow> nat \<Rightarrow> trema list" where
  "levelTremas g levelRadius lev k 0 = []"
| "levelTremas g levelRadius lev k (Suc n) =
     \<lparr>cx = - 1 + 2 * g k, cy = - 1 + 2 * g (k + 1),
      r = levelRadius * (0.8 + 0.4 * g (k + 2)), level = lev\<rparr>
     # levelTremas g levelRadius lev (k + 3) n"

text \<open>What the outer loop appends for the levels \<open>lev, lev + 1, ...\<close> below \<open>depth\<close>.\<close>

function levelsFrom :: "draws \<Rightarrow> int \<Rightarrow> real \<Rightarrow> real \<Rightarrow> nat \<Rightarrow> nat \<Rightarrow> trema list" where
  "levelsFrom g depth density baseRadius lev k =
     (if int lev < depth
      then levelTremas g (baseRadius * 0.5 ^ lev) (int lev) k (nat (levelCount density lev))
           @ levelsFrom g depth density baseRadius (Suc lev) (k + 3 * nat (levelCount density lev))
      else [])"
  by pat_completeness auto
termination
  by (relation "measure (\<lambda>(g, depth, density, baseRadius, lev, k). nat (depth - int lev))") auto

declare levelsFrom.simps [simp del]

text \<open>
  Two sequences of draws agree on the calls \<open>k, ..., k' - 1\<close> of the random source.
\<close>

definition agree :: "draws \<Rightarrow> draws \<Rightarrow> nat \<Rightarrow> nat \<Rightarrow> bool" where
  "agree g g' k k' \<longleftrightarrow> (\<forall>i. k \<le> i \<and> i < k' \<longrightarrow> g' i = g i)"

text \<open>
  A concrete run, used to instantiate the theorems: a periodic sequence of draws
  \<open>0, 3/8, 6/8, 1/8, 4/8, 7/8, 2/8, 5/8, 0, ...\<close>, a second sequence that follows it
  for 22 draws and differs afterwards, and a field of three tremas.
\<close>

definition demoDraws :: draws where
  "demoDraws i = real ((3 * i) mod 8) / 8"

definition demoDraws2 :: draws where
  "demoDraws2 i = (if i < 22 then demoDraws i else 1 / 3)"

definition demoField :: "trema list" where
  "demoField =
     [\<lparr>cx = - 3 / 4, cy = 0, r = 1 / 2, level = 0\<rparr>,
      \<lparr>cx = 1 / 2, cy = 1 / 2, r = 1 / 4, level = 1\<rparr>,
      \<lparr>cx = 0, cy = - 1 / 2, r = 1 / 8, level = 2\<rparr>]"

text \<open>A field whose only trema is far from the square \<open>[-1,1]\<^sup>2\<close>.\<close>

definition farField :: "trema list" where
  "farField = [\<lparr>cx = 40000, cy = 0, r = 1, level = 3\<rparr>]"

section \<open>The sampler's loop\<close>

lemma sampleLoop_invariant_aux:
  "P s \<Longrightarrow>
   (\<forall>s. P s \<longrightarrow> sampleCond samples maxAttempts s \<longrightarrow> P (sampleBody g tremas s)) \<Longrightarrow>
   P (sampleLoop g tremas samples maxAttempts s)"
proof (induction g tremas samples maxAttempts s rule: sampleLoop.induct)
  case (1 g tremas samples maxAttempts s)
  show ?case
  proof (cases "sampleCond samples maxAttempts s")
    case True
    with "1.prems" have "P (sampleBody g tremas s)"
      by blast
    with True "1.IH" "1.prems"(2) show ?thesis
      by (subst sampleLoop.simps) simp
  next
    case False
    with "1.prems"(1) show ?thesis
      by (subst sampleLoop.simps) simp
  qed
qed

lemma sampleLoop_invariant:
  assumes "P s"
    and "\<And>s. P s \<Longrightarrow> sampleCond samples maxAttempts s \<Longrightarrow> P (sampleBody g tremas s)"
  shows "P (sampleLoop g tremas samples maxAttempts s)"
  by (rule sampleLoop_invariant_aux [of P]) (use assms in blast)+

lemma sampleLoop_exit:
  "\<not> sampleCond samples maxAttempts (sampleLoop g tremas samples maxAttempts s)"
proof (induction g tremas samples maxAttempts s rule: sampleLoop.induct)
  case (1 g tremas samples maxAttempts s)
  then show ?case
    by (subst sampleLoop.simps) simp
qed

lemma lengths_sampleBody:
  assumes "length (positions s) = 2 * length (levels s)"
    and "length (colors s) = 3 * length (levels s)"
  shows "length (positions (sampleBody g tremas s)) = 2 * length (levels (sampleBody g tremas s))
       \<and> length (colors (sampleBody g tremas s)) = 3 * length (levels (sampleBody g tremas s))"
  using assms by (simp add: sampleBody_def Let_def split: prod.splits)

lemma batch_lengths:
  "length (positions (generatePointsFromTremas g k tremas samples))
     = 2 * length (levels (generatePointsFromTremas g k tremas samples))"
  "length (colors (generatePointsFromTremas g k tremas samples))
     = 3 * length (levels (generatePointsFromTremas g k tremas samples))"
  unfolding generatePointsFromTremas_def Let_def
  by (rule sampleLoop_invariant [where P = "\<lambda>s. length (positions s) = 2 * length (levels s)
         \<and> length (colors s) = 3 * length (levels s)", THEN conjunct1], simp, simp add: lengths_sampleBody)
     (rule sampleLoop_invariant [where P = "\<lambda>s. length (positions s) = 2 * length (levels s)
         \<and> length (colors s) = 3 * length (levels s)", THEN conjunct2], simp, simp add: lengths_sampleBody)

lemma cursor_sampleBody: "cursor s \<le> cursor (sampleBody g tremas s)"
  by (simp add: sampleBody_def rand_def randRange_def Let_def)

lemma cursor_sampleLoop: "cursor s \<le> cursor (sampleLoop g tremas samples maxAttempts s)"
proof (rule sampleLoop_invariant [where P = "\<lambda>s'. cursor s \<le> cursor s'"])
  show "cursor s \<le> cursor s" by simp
next
  fix s' :: sampler
  assume "cursor s \<le> cursor s'"
  with cursor_sampleBody [of s' g tremas] show "cursor s \<le> cursor (sampleBody g tremas s')"
    by simp
qed

lemma generate_exit:
  "\<not> sampleCond samples (samples * 10) (generatePointsFromTremas g k tremas samples)"
  by (simp add: generatePointsFromTremas_def Let_def sampleLoop_exit)

lemma bounded_sampleBody:
  assumes "bounded samples maxAttempts s" and "sampleCond samples maxAttempts s"
  shows "bounded samples maxAttempts (sampleBody g tremas s)"
  using assms
  by (auto simp: bounded_def sampleCond_def sampleBody_def Let_def split: prod.splits)

lemma bounded_generate:
  "bounded samples (samples * 10) (generatePointsFromTremas g k tremas samples)"
  unfolding generatePointsFromTremas_def Let_def
proof (rule sampleLoop_invariant [where P = "bounded samples (samples * 10)"])
  show "bounded samples (samples * 10)
          \<lparr>positions = [], colors = [], levels = [], attempts = 0, cursor = k\<rparr>"
    by (simp add: bounded_def)
qed (rule bounded_sampleBody)

lemma insideAny_iff:
  "insideAny tremas x y \<longleftrightarrow>
     (\<exists>c\<in>set tremas. (x - cx c) * (x - cx c) + (y - cy c) * (y - cy c) < r c * r c)"
  by (induction tremas) (auto simp: Let_def)

lemma everyPoint_append:
  assumes "everyPoint Q s" and "Q x y c1 c2 c3 l"
  shows "everyPoint Q \<lparr>positions = positions s @ [x, y], colors = colors s @ [c1, c2, c3],
           levels = levels s @ [l], attempts = a, cursor = k\<rparr>"
proof -
  let ?n = "length (levels s)"
  from assms(1) have lp: "length (positions s) = 2 * ?n" and lc: "length (colors s) = 3 * ?n"
    and old: "\<And>m. m < ?n \<Longrightarrow> Q (positions s ! (2 * m)) (positions s ! (2 * m + 1))
          (colors s ! (3 * m)) (colors s ! (3 * m + 1)) (colors s ! (3 * m + 2)) (levels s ! m)"
    by (auto simp: everyPoint_def)
  show ?thesis
    unfolding everyPoint_def
  proof (intro conjI allI impI)
    fix m
    assume "m < length (levels \<lparr>positions = positions s @ [x, y], colors = colors s @ [c1, c2, c3],
           levels = levels s @ [l], attempts = a, cursor = k\<rparr>)"
    then have "m < ?n \<or> m = ?n"
      by auto
    then show "Q (positions \<lparr>positions = positions s @ [x, y], colors = colors s @ [c1, c2, c3],
           levels = levels s @ [l], attempts = a, cursor = k\<rparr> ! (2 * m))
        (positions \<lparr>positions = positions s @ [x, y], colors = colors s @ [c1, c2, c3],
           levels = levels s @ [l], attempts = a, cursor = k\<rparr> ! (2 * m + 1))
        (colors \<lparr>positions = positions s @ [x, y], colors = colors s @ [c1, c2, c3],
           levels = levels s @ [l], attempts = a, cursor = k\<rparr> ! (3 * m))
        (colors \<lparr>positions = positions s @ [x, y], colors = colors s @ [c1, c2, c3],
           levels = levels s @ [l], attempts = a, cursor = k\<rparr> ! (3 * m + 1))
        (colors \<lparr>positions = positions s @ [x, y], colors = colors s @ [c1, c2, c3],
           levels = levels s @ [l], attempts = a, cursor = k\<rparr> ! (3 * m + 2))
        (levels \<lparr>positions = positions s @ [x, y], colors = colors s @ [c1, c2, c3],
           levels = levels s @ [l], attempts = a, cursor = k\<rparr> ! m)"
    proof
      assume "m < ?n"
      with old [OF this] lp lc show ?thesis
        by (simp add: nth_append)
    next
      assume "m = ?n"
      with assms(2) lp lc show ?thesis
        by (simp add: nth_append)
    qed
  qed (use lp lc in simp_all)
qed

lemma everyPoint_sampleBody:
  assumes "everyPoint Q s"
    and "\<And>j. cursor s \<le> j \<Longrightarrow>
           \<not> insideAny tremas (- 1 + 2 * g j) (- 1 + 2 * g (j + 1)) \<Longrightarrow>
           Q (- 1 + 2 * g j) (- 1 + 2 * g (j + 1))
             (0.2 + 0.6 * g (j + 3)) (0.35 + 0.55 * g (j + 4)) (0.4 + 0.6 * g (j + 2))
             (levelFactor tremas (- 1 + 2 * g j) (- 1 + 2 * g (j + 1)))"
  shows "everyPoint Q (sampleBody g tremas s)"
proof (cases "insideAny tremas (- 1 + 2 * g (cursor s)) (- 1 + 2 * g (cursor s + 1))")
  case True
  then have "sampleBody g tremas s = s\<lparr>attempts := attempts s + 1, cursor := cursor s + 1 + 1\<rparr>"
    by (simp add: sampleBody_def rand_def randRange_def)
  with assms(1) show ?thesis
    by (simp add: everyPoint_def)
next
  case False
  then have "sampleBody g tremas s =
      \<lparr>positions = positions s @ [- 1 + 2 * g (cursor s), - 1 + 2 * g (cursor s + 1)],
       colors = colors s @ [0.2 + 0.6 * g (cursor s + 3), 0.35 + 0.55 * g (cursor s + 4),
                 0.4 + 0.6 * g (cursor s + 2)],
       levels = levels s @ [levelFactor tremas (- 1 + 2 * g (cursor s)) (- 1 + 2 * g (cursor s + 1))],
       attempts = attempts s + 1, cursor = cursor s + 5\<rparr>"
    by (simp add: sampleBody_def rand_def randRange_def Let_def numeral_eq_Suc)
  moreover have "Q (- 1 + 2 * g (cursor s)) (- 1 + 2 * g (cursor s + 1))
             (0.2 + 0.6 * g (cursor s + 3)) (0.35 + 0.55 * g (cursor s + 4)) (0.4 + 0.6 * g (cursor s + 2))
             (levelFactor tremas (- 1 + 2 * g (cursor s)) (- 1 + 2 * g (cursor s + 1)))"
    using assms(2) [of "cursor s"] False by simp
  ultimately show ?thesis
    using everyPoint_append [OF assms(1)] by simp
qed

lemma everyPoint_generate:
  assumes "\<And>j. k \<le> j \<Longrightarrow>
           \<not> insideAny tremas (- 1 + 2 * g j) (- 1 + 2 * g (j + 1)) \<Longrightarrow>
           Q (- 1 + 2 * g j) (- 1 + 2 * g (j + 1))
             (0.2 + 0.6 * g (j + 3)) (0.35 + 0.55 * g (j + 4)) (0.4 + 0.6 * g (j + 2))
             (levelFactor tremas (- 1 + 2 * g j) (- 1 + 2 * g (j + 1)))"
  shows "everyPoint Q (generatePointsFromTremas g k tremas samples)"
proof -
  have "everyPoint Q (generatePointsFromTremas g k tremas samples)
        \<and> k \<le> cursor (generatePointsFromTremas g k tremas samples)"
    unfolding generatePointsFromTremas_def Let_def
  proof (rule sampleLoop_invariant [where P = "\<lambda>s. everyPoint Q s \<and> k \<le> cursor s"])
    show "everyPoint Q \<lparr>positions = [], colors = [], levels = [], attempts = 0, cursor = k\<rparr>
          \<and> k \<le> cursor \<lparr>positions = [], colors = [], levels = [], attempts = 0, cursor = k\<rparr>"
      by (simp add: everyPoint_def)
  next
    fix s
    assume inv: "everyPoint Q s \<and> k \<le> cursor s"
    have "everyPoint Q (sampleBody g tremas s)"
    proof (rule everyPoint_sampleBody)
      show "everyPoint Q s" using inv by simp
    next
      fix j assume "cursor s \<le> j"
        and "\<not> insideAny tremas (- 1 + 2 * g j) (- 1 + 2 * g (j + 1))"
      with inv show "Q (- 1 + 2 * g j) (- 1 + 2 * g (j + 1))
             (0.2 + 0.6 * g (j + 3)) (0.35 + 0.55 * g (j + 4)) (0.4 + 0.6 * g (j + 2))
             (levelFactor tremas (- 1 + 2 * g j) (- 1 + 2 * g (j + 1)))"
        by (intro assms) simp_all
    qed
    moreover have "k \<le> cursor (sampleBody g tremas s)"
      using inv cursor_sampleBody [of s g tremas] by simp
    ultimately show "everyPoint Q (sampleBody g tremas s) \<and> k \<le> cursor (sampleBody g tremas s)"
      by simp
  qed
  then show ?thesis by simp
qed

section \<open>The level factor\<close>

lemma nearestScan_Cons:
  "nearestScan (c # cs) x y (nl, md) =
     (if dist2 x y c < md then nearestScan cs x y (level c, dist2 x y c)
      else nearestScan cs x y (nl, md))"
  by (simp add: dist2_def Let_def)

lemma nearestScan_first_minimum:
  "(\<forall>c\<in>set cs. md \<le> dist2 x y c) \<and> nearestScan cs x y (nl, md) = (nl, md)
   \<or> (\<exists>j<length cs. dist2 x y (cs ! j) < md
         \<and> (\<forall>i<length cs. dist2 x y (cs ! j) \<le> dist2 x y (cs ! i))
         \<and> (\<forall>i<j. dist2 x y (cs ! j) < dist2 x y (cs ! i))
         \<and> nearestScan cs x y (nl, md) = (level (cs ! j), dist2 x y (cs ! j)))"
proof (induction cs arbitrary: nl md)
  case Nil
  show ?case by simp
next
  case (Cons c cs)
  let ?d = "dist2 x y c"
  show ?case
  proof (cases "?d < md")
    case True
    from Cons.IH [of ?d "level c"] show ?thesis
    proof
      assume rest: "(\<forall>c'\<in>set cs. ?d \<le> dist2 x y c') \<and> nearestScan cs x y (level c, ?d) = (level c, ?d)"
      have "0 < length (c # cs) \<and> dist2 x y ((c # cs) ! 0) < md
         \<and> (\<forall>i<length (c # cs). dist2 x y ((c # cs) ! 0) \<le> dist2 x y ((c # cs) ! i))
         \<and> (\<forall>i<0. dist2 x y ((c # cs) ! 0) < dist2 x y ((c # cs) ! i))
         \<and> nearestScan (c # cs) x y (nl, md) = (level ((c # cs) ! 0), dist2 x y ((c # cs) ! 0))"
        using True rest by (auto simp: nearestScan_Cons nth_Cons simp del: nearestScan.simps split: nat.splits)
      then show ?thesis by blast
    next
      assume "\<exists>j<length cs. dist2 x y (cs ! j) < ?d
         \<and> (\<forall>i<length cs. dist2 x y (cs ! j) \<le> dist2 x y (cs ! i))
         \<and> (\<forall>i<j. dist2 x y (cs ! j) < dist2 x y (cs ! i))
         \<and> nearestScan cs x y (level c, ?d) = (level (cs ! j), dist2 x y (cs ! j))"
      then obtain j where j: "j < length cs" "dist2 x y (cs ! j) < ?d"
        "\<forall>i<length cs. dist2 x y (cs ! j) \<le> dist2 x y (cs ! i)"
        "\<forall>i<j. dist2 x y (cs ! j) < dist2 x y (cs ! i)"
        "nearestScan cs x y (level c, ?d) = (level (cs ! j), dist2 x y (cs ! j))"
        by blast
      have "Suc j < length (c # cs) \<and> dist2 x y ((c # cs) ! Suc j) < md
         \<and> (\<forall>i<length (c # cs). dist2 x y ((c # cs) ! Suc j) \<le> dist2 x y ((c # cs) ! i))
         \<and> (\<forall>i<Suc j. dist2 x y ((c # cs) ! Suc j) < dist2 x y ((c # cs) ! i))
         \<and> nearestScan (c # cs) x y (nl, md) = (level ((c # cs) ! Suc j), dist2 x y ((c # cs) ! Suc j))"
        using True j by (auto simp: nearestScan_Cons nth_Cons simp del: nearestScan.simps split: nat.splits)
      then show ?thesis by blast
    qed
  next
    case False
    from Cons.IH [of md nl] show ?thesis
    proof
      assume "(\<forall>c'\<in>set cs. md \<le> dist2 x y c') \<and> nearestScan cs x y (nl, md) = (nl, md)"
      with False show ?thesis
        by (auto simp: nearestScan_Cons simp del: nearestScan.simps)
    next
      assume "\<exists>j<length cs. dist2 x y (cs ! j) < md
         \<and> (\<forall>i<length cs. dist2 x y (cs ! j) \<le> dist2 x y (cs ! i))
         \<and> (\<forall>i<j. dist2 x y (cs ! j) < dist2 x y (cs ! i))
         \<and> nearestScan cs x y (nl, md) = (level (cs ! j), dist2 x y (cs ! j))"
      then obtain j where j: "j < length cs" "dist2 x y (cs ! j) < md"
        "\<forall>i<length cs. dist2 x y (cs ! j) \<le> dist2 x y (cs ! i)"
        "\<forall>i<j. dist2 x y (cs ! j) < dist2 x y (cs ! i)"
        "nearestScan cs x y (nl, md) = (level (cs ! j), dist2 x y (cs ! j))"
        by blast
      have "Suc j < length (c # cs) \<and> dist2 x y ((c # cs) ! Suc j) < md
         \<and> (\<forall>i<length (c # cs). dist2 x y ((c # cs) ! Suc j) \<le> dist2 x y ((c # cs) ! i))
         \<and> (\<forall>i<Suc j. dist2 x y ((c # cs) ! Suc j) < dist2 x y ((c # cs) ! i))
         \<and> nearestScan (c # cs) x y (nl, md) = (level ((c # cs) ! Suc j), dist2 x y ((c # cs) ! Suc j))"
        using False j by (auto simp: nearestScan_Cons nth_Cons simp del: nearestScan.simps split: nat.splits)
      then show ?thesis by blast
    qed
  qed
qed


lemma square_le_4:
  assumes "- 2 \<le> (a::real)" and "a \<le> 2"
  shows "a * a \<le> 4"
proof -
  have "0 \<le> (2 - a) * (2 + a)"
    using assms by (intro mult_nonneg_nonneg) simp_all
  then show ?thesis
    by (simp add: algebra_simps)
qed

lemma dist2_in_square:
  assumes "- 1 \<le> x" "x \<le> 1" "- 1 \<le> y" "y \<le> 1"
    and "- 1 \<le> cx c" "cx c \<le> 1" "- 1 \<le> cy c" "cy c \<le> 1"
  shows "dist2 x y c \<le> 8"
proof -
  have "(x - cx c) * (x - cx c) \<le> 4" and "(y - cy c) * (y - cy c) \<le> 4"
    using assms by (intro square_le_4; simp)+
  then show ?thesis
    by (simp add: dist2_def)
qed


lemma foldl_max_eq_Max: "foldl max (a::int) ls = Max (set (a # ls))"
proof (induction ls arbitrary: a)
  case Nil
  show ?case by simp
next
  case (Cons l ls)
  have "Max (insert a (insert l (set ls))) = Max (insert (max a l) (set ls))"
    by (cases "set ls = {}") (auto simp: max.assoc)
  with Cons.IH [of "max a l"] show ?case
    by simp
qed



lemma levelDivisor_Max:
  "tremas \<noteq> [] \<Longrightarrow> levelDivisor tremas = max 1 (Max (level ` set tremas))"
  by (cases tremas) (simp_all add: levelDivisor_def foldl_max_eq_Max)


lemma levelFactor_far:
  assumes "\<forall>c\<in>set tremas. 1000000000 \<le> dist2 x y c"
  shows "levelFactor tremas x y = 0"
proof -
  from assms nearestScan_first_minimum [of tremas 1000000000 x y 0]
  have "nearestScan tremas x y (0, 1000000000) = (0, 1000000000)"
    by (auto simp: not_less [symmetric] dest: nth_mem)
  then show ?thesis
    by (simp add: levelFactor_def)
qed

lemma levelFactor_near:
  assumes "\<exists>c\<in>set tremas. dist2 x y c < 1000000000"
  shows "\<exists>j<length tremas.
      (\<forall>i<length tremas. dist2 x y (tremas ! j) \<le> dist2 x y (tremas ! i))
    \<and> (\<forall>i<j. dist2 x y (tremas ! j) < dist2 x y (tremas ! i))
    \<and> levelFactor tremas x y
        = real_of_int (level (tremas ! j)) / real_of_int (max 1 (Max (level ` set tremas)))"
proof -
  from assms have ne: "tremas \<noteq> []"
    by auto
  from assms have "\<not> (\<forall>c\<in>set tremas. 1000000000 \<le> dist2 x y c)"
    by (auto simp: not_le)
  with nearestScan_first_minimum [of tremas 1000000000 x y 0]
  obtain j where j: "j < length tremas"
    "\<forall>i<length tremas. dist2 x y (tremas ! j) \<le> dist2 x y (tremas ! i)"
    "\<forall>i<j. dist2 x y (tremas ! j) < dist2 x y (tremas ! i)"
    "nearestScan tremas x y (0, 1000000000) = (level (tremas ! j), dist2 x y (tremas ! j))"
    by blast
  from j(4) ne have "levelFactor tremas x y
      = real_of_int (level (tremas ! j)) / real_of_int (max 1 (Max (level ` set tremas)))"
    by (simp add: levelFactor_def levelDivisor_Max)
  with j(1,2,3) show ?thesis
    by blast
qed

lemma levels_are_levelFactor:
  assumes "m < length (levels (generatePointsFromTremas g k tremas samples))"
  shows "levels (generatePointsFromTremas g k tremas samples) ! m
     = levelFactor tremas (positions (generatePointsFromTremas g k tremas samples) ! (2 * m))
         (positions (generatePointsFromTremas g k tremas samples) ! (2 * m + 1))"
proof -
  have "everyPoint (\<lambda>x y c1 c2 c3 l. l = levelFactor tremas x y)
          (generatePointsFromTremas g k tremas samples)"
    by (rule everyPoint_generate) simp
  with assms show ?thesis
    by (simp add: everyPoint_def)
qed

lemma near_in_square:
  assumes "tremas \<noteq> []"
    and "\<forall>c\<in>set tremas. - 1 \<le> cx c \<and> cx c \<le> 1 \<and> - 1 \<le> cy c \<and> cy c \<le> 1"
    and "\<forall>i. 0 \<le> g i \<and> g i < 1"
    and "m < length (levels (generatePointsFromTremas g k tremas samples))"
  shows "\<exists>c\<in>set tremas.
          dist2 (positions (generatePointsFromTremas g k tremas samples) ! (2 * m))
                (positions (generatePointsFromTremas g k tremas samples) ! (2 * m + 1)) c
          < 1000000000"
proof -
  let ?S = "generatePointsFromTremas g k tremas samples"
  have "everyPoint (\<lambda>x y c1 c2 c3 l. - 1 \<le> x \<and> x \<le> 1 \<and> - 1 \<le> y \<and> y \<le> 1) ?S"
  proof (rule everyPoint_generate)
    fix j
    from assms(3) have "0 \<le> g j" "g j < 1" "0 \<le> g (j + 1)" "g (j + 1) < 1"
      by simp_all
    then show "- 1 \<le> - 1 + 2 * g j \<and> - 1 + 2 * g j \<le> 1
        \<and> - 1 \<le> - 1 + 2 * g (j + 1) \<and> - 1 + 2 * g (j + 1) \<le> 1"
      by simp
  qed
  with assms(4) have sq: "- 1 \<le> positions ?S ! (2 * m)" "positions ?S ! (2 * m) \<le> 1"
      "- 1 \<le> positions ?S ! (2 * m + 1)" "positions ?S ! (2 * m + 1) \<le> 1"
    by (simp_all add: everyPoint_def)
  from assms(1) obtain c where c: "c \<in> set tremas"
    by (cases tremas) auto
  with assms(2) sq have "dist2 (positions ?S ! (2 * m)) (positions ?S ! (2 * m + 1)) c \<le> 8"
    by (intro dist2_in_square) simp_all
  with c show ?thesis
    by force
qed

section \<open>The builder's loops\<close>

lemma pushTrema_eq:
  "pushTrema g levelRadius lev (tremas, k) =
     (tremas @ [\<lparr>cx = - 1 + 2 * g k, cy = - 1 + 2 * g (k + 1),
                 r = levelRadius * (0.8 + 0.4 * g (k + 2)), level = lev\<rparr>], k + 3)"
  by (simp add: pushTrema_def rand_def randRange_def numeral_eq_Suc)

lemma tremasOfLevel_eq:
  "tremasOfLevel g levelRadius lev count i (tremas, k) =
     (tremas @ levelTremas g levelRadius lev k (nat (count - int i)),
      k + 3 * nat (count - int i))"
proof (induction g levelRadius lev count i "(tremas, k)" arbitrary: tremas k rule: tremasOfLevel.induct)
  case (1 g levelRadius lev count i)
  show ?case
  proof (cases "int i < count")
    case True
    then have n: "nat (count - int i) = Suc (nat (count - int (Suc i)))"
      by simp
    from True "1.hyps" [OF True pushTrema_eq] show ?thesis
      by (subst tremasOfLevel.simps) (simp add: pushTrema_eq n del: of_nat_Suc)
  next
    case False
    then show ?thesis
      by (subst tremasOfLevel.simps) simp
  qed
qed

lemma length_levelTremas: "length (levelTremas g levelRadius lev k n) = n"
  by (induction n arbitrary: k) simp_all

lemma level_levelTremas: "c \<in> set (levelTremas g levelRadius lev k n) \<Longrightarrow> level c = lev"
  by (induction n arbitrary: k) auto

lemma levelTremas_shape:
  "c \<in> set (levelTremas g levelRadius lev k n) \<Longrightarrow>
   \<exists>j\<ge>k. c = \<lparr>cx = - 1 + 2 * g j, cy = - 1 + 2 * g (j + 1),
               r = levelRadius * (0.8 + 0.4 * g (j + 2)), level = lev\<rparr>"
proof (induction n arbitrary: k)
  case 0
  then show ?case by simp
next
  case (Suc n)
  from Suc.prems have "c = \<lparr>cx = - 1 + 2 * g k, cy = - 1 + 2 * g (k + 1),
      r = levelRadius * (0.8 + 0.4 * g (k + 2)), level = lev\<rparr>
    \<or> c \<in> set (levelTremas g levelRadius lev (k + 3) n)"
    by simp
  then show ?case
  proof
    assume "c = \<lparr>cx = - 1 + 2 * g k, cy = - 1 + 2 * g (k + 1),
      r = levelRadius * (0.8 + 0.4 * g (k + 2)), level = lev\<rparr>"
    then show ?thesis by blast
  next
    assume "c \<in> set (levelTremas g levelRadius lev (k + 3) n)"
    from Suc.IH [OF this] obtain j where "k + 3 \<le> j"
      "c = \<lparr>cx = - 1 + 2 * g j, cy = - 1 + 2 * g (j + 1),
               r = levelRadius * (0.8 + 0.4 * g (j + 2)), level = lev\<rparr>"
      by blast
    then show ?thesis
      by (intro exI [of _ j]) simp
  qed
qed

lemma filter_levelTremas:
  "filter (\<lambda>c. level c = l) (levelTremas g levelRadius lev k n)
     = (if l = lev then levelTremas g levelRadius lev k n else [])"
  by (induction n arbitrary: k) auto

lemma buildLevels_eq:
  "fst (buildLevels g depth density baseRadius lev (tremas, k)) =
     tremas @ levelsFrom g depth density baseRadius lev k"
proof (induction g depth density baseRadius lev "(tremas, k)" arbitrary: tremas k rule: buildLevels.induct)
  case (1 g depth density baseRadius lev)
  show ?case
  proof (cases "int lev < depth")
    case True
    have step: "tremasOfLevel g (baseRadius * 0.5 ^ lev) (int lev) (levelCount density lev) 0 (tremas, k)
        = (tremas @ levelTremas g (baseRadius * 0.5 ^ lev) (int lev) k (nat (levelCount density lev)),
           k + 3 * nat (levelCount density lev))"
      by (simp add: tremasOfLevel_eq)
    from True "1.hyps" [OF True refl refl refl step] show ?thesis
      by (subst buildLevels.simps, subst levelsFrom.simps) (simp add: tremasOfLevel_eq Let_def)
  next
    case False
    then show ?thesis
      by (subst buildLevels.simps, subst levelsFrom.simps) simp
  qed
qed

lemma snd_buildLevels:
  "snd (buildLevels g depth density baseRadius lev (tremas, k))
     = k + 3 * (\<Sum>L = lev..<nat depth. nat (levelCount density L))"
proof (induction g depth density baseRadius lev "(tremas, k)" arbitrary: tremas k rule: buildLevels.induct)
  case (1 g depth density baseRadius lev)
  show ?case
  proof (cases "int lev < depth")
    case True
    then have "lev < nat depth" by simp
    then have split: "(\<Sum>L = lev..<nat depth. nat (levelCount density L))
        = nat (levelCount density lev) + (\<Sum>L = Suc lev..<nat depth. nat (levelCount density L))"
      by (simp add: sum.atLeast_Suc_lessThan)
    have step: "tremasOfLevel g (baseRadius * 0.5 ^ lev) (int lev) (levelCount density lev) 0 (tremas, k)
        = (tremas @ levelTremas g (baseRadius * 0.5 ^ lev) (int lev) k (nat (levelCount density lev)),
           k + 3 * nat (levelCount density lev))"
      by (simp add: tremasOfLevel_eq)
    from True "1.hyps" [OF True refl refl refl step] show ?thesis
      by (subst buildLevels.simps) (simp add: tremasOfLevel_eq Let_def split)
  next
    case False
    then show ?thesis
      by (subst buildLevels.simps) simp
  qed
qed

lemma length_levelsFrom:
  "length (levelsFrom g depth density baseRadius lev k)
     = (\<Sum>L = lev..<nat depth. nat (levelCount density L))"
proof (induction g depth density baseRadius lev k rule: levelsFrom.induct)
  case (1 g depth density baseRadius lev k)
  show ?case
  proof (cases "int lev < depth")
    case True
    then have "lev < nat depth" by simp
    then have "(\<Sum>L = lev..<nat depth. nat (levelCount density L))
        = nat (levelCount density lev) + (\<Sum>L = Suc lev..<nat depth. nat (levelCount density L))"
      by (simp add: sum.atLeast_Suc_lessThan)
    with True "1.IH" show ?thesis
      by (subst levelsFrom.simps) (simp add: length_levelTremas)
  next
    case False
    then show ?thesis
      by (subst levelsFrom.simps) simp
  qed
qed

lemma count_levelsFrom:
  "length (filter (\<lambda>c. level c = int L) (levelsFrom g depth density baseRadius lev k))
     = (if lev \<le> L \<and> int L < depth then nat (levelCount density L) else 0)"
proof (induction g depth density baseRadius lev k rule: levelsFrom.induct)
  case (1 g depth density baseRadius lev k)
  show ?case
  proof (cases "int lev < depth")
    case True
    with "1.IH" show ?thesis
      by (subst levelsFrom.simps) (auto simp: filter_levelTremas length_levelTremas)
  next
    case False
    then show ?thesis
      by (subst levelsFrom.simps) auto
  qed
qed

lemma levelsFrom_shape:
  "c \<in> set (levelsFrom g depth density baseRadius lev k) \<Longrightarrow>
   \<exists>L j. lev \<le> L \<and> int L < depth \<and>
     c = \<lparr>cx = - 1 + 2 * g j, cy = - 1 + 2 * g (j + 1),
          r = baseRadius * 0.5 ^ L * (0.8 + 0.4 * g (j + 2)), level = int L\<rparr>"
proof (induction g depth density baseRadius lev k rule: levelsFrom.induct)
  case (1 g depth density baseRadius lev k)
  show ?case
  proof (cases "int lev < depth")
    case True
    with "1.prems" have "c \<in> set (levelTremas g (baseRadius * 0.5 ^ lev) (int lev) k (nat (levelCount density lev)))
      \<or> c \<in> set (levelsFrom g depth density baseRadius (Suc lev) (k + 3 * nat (levelCount density lev)))"
      by (subst (asm) levelsFrom.simps) simp
    then show ?thesis
    proof
      assume "c \<in> set (levelTremas g (baseRadius * 0.5 ^ lev) (int lev) k (nat (levelCount density lev)))"
      from levelTremas_shape [OF this] True show ?thesis
        by blast
    next
      assume "c \<in> set (levelsFrom g depth density baseRadius (Suc lev) (k + 3 * nat (levelCount density lev)))"
      from "1.IH" [OF True this] obtain L j where "Suc lev \<le> L" "int L < depth"
        "c = \<lparr>cx = - 1 + 2 * g j, cy = - 1 + 2 * g (j + 1),
          r = baseRadius * 0.5 ^ L * (0.8 + 0.4 * g (j + 2)), level = int L\<rparr>"
        by blast
      then show ?thesis
        by (intro exI [of _ L] exI [of _ j]) simp
    qed
  next
    case False
    with "1.prems" show ?thesis
      by (subst (asm) levelsFrom.simps) simp
  qed
qed

lemma buildTremas_shape:
  assumes "c \<in> set (fst (buildTremas g k depth density baseRadius))"
  shows "\<exists>L j. int L < depth \<and>
     c = \<lparr>cx = - 1 + 2 * g j, cy = - 1 + 2 * g (j + 1),
          r = baseRadius * 0.5 ^ L * (0.8 + 0.4 * g (j + 2)), level = int L\<rparr>"
  using assms levelsFrom_shape [of c g depth density baseRadius 0 k]
  by (auto simp: buildTremas_def buildLevels_eq)

lemma buildTremas_centres:
  assumes "\<forall>i. 0 \<le> g i \<and> g i < 1"
    and "c \<in> set (fst (buildTremas g k depth density baseRadius))"
  shows "- 1 \<le> cx c \<and> cx c \<le> 1 \<and> - 1 \<le> cy c \<and> cy c \<le> 1"
proof -
  from buildTremas_shape [OF assms(2)] obtain L j where
    c: "c = \<lparr>cx = - 1 + 2 * g j, cy = - 1 + 2 * g (j + 1),
          r = baseRadius * 0.5 ^ L * (0.8 + 0.4 * g (j + 2)), level = int L\<rparr>"
    by blast
  from assms(1) have "0 \<le> g j" "g j < 1" "0 \<le> g (j + 1)" "g (j + 1) < 1"
    by simp_all
  with c show ?thesis
    by simp
qed

lemma buildTremas_depth_0: "buildTremas g k 0 density baseRadius = ([], k)"
  by (simp add: buildTremas_def buildLevels.simps)

lemma levelRadius_decreasing:
  assumes "0 < baseRadius" and "L1 < L2"
  shows "baseRadius * 0.5 ^ L2 < baseRadius * (0.5::real) ^ L1"
  using assms by (simp add: power_strict_decreasing)

section \<open>Dependence on the draws\<close>

lemma agree_mono: "agree g g' k k' \<Longrightarrow> k \<le> j \<Longrightarrow> j' \<le> k' \<Longrightarrow> agree g g' j j'"
  by (simp add: agree_def)

lemma levelTremas_agree:
  "agree g g' k (k + 3 * n) \<Longrightarrow>
   levelTremas g' levelRadius lev k n = levelTremas g levelRadius lev k n"
proof (induction n arbitrary: k)
  case 0
  show ?case by simp
next
  case (Suc n)
  from Suc.prems have "g' k = g k" "g' (k + 1) = g (k + 1)" "g' (k + 2) = g (k + 2)"
    by (simp_all add: agree_def)
  moreover from Suc.prems have "agree g g' (k + 3) (k + 3 + 3 * n)"
    by (simp add: agree_def)
  ultimately show ?case
    using Suc.IH [of "k + 3"] by simp
qed

lemma levelsFrom_agree:
  "agree g g' k (k + 3 * (\<Sum>L = lev..<nat depth. nat (levelCount density L))) \<Longrightarrow>
   levelsFrom g' depth density baseRadius lev k = levelsFrom g depth density baseRadius lev k"
proof (induction g depth density baseRadius lev k rule: levelsFrom.induct)
  case (1 g depth density baseRadius lev k)
  show ?case
  proof (cases "int lev < depth")
    case True
    then have "lev < nat depth" by simp
    then have split: "(\<Sum>L = lev..<nat depth. nat (levelCount density L))
        = nat (levelCount density lev) + (\<Sum>L = Suc lev..<nat depth. nat (levelCount density L))"
      by (simp add: sum.atLeast_Suc_lessThan)
    from "1.prems" have "agree g g' k (k + 3 * nat (levelCount density lev))"
      by (rule agree_mono) (simp_all add: split)
    then have a: "levelTremas g' (baseRadius * 0.5 ^ lev) (int lev) k (nat (levelCount density lev))
        = levelTremas g (baseRadius * 0.5 ^ lev) (int lev) k (nat (levelCount density lev))"
      by (rule levelTremas_agree)
    from "1.prems" have "agree g g' (k + 3 * nat (levelCount density lev))
        (k + 3 * nat (levelCount density lev) + 3 * (\<Sum>L = Suc lev..<nat depth. nat (levelCount density L)))"
      by (rule agree_mono) (simp_all add: split)
    from "1.IH" [OF True this] a True show ?thesis
      by (subst levelsFrom.simps, subst (2) levelsFrom.simps) simp
  next
    case False
    then show ?thesis
      by (subst levelsFrom.simps, subst (2) levelsFrom.simps) simp
  qed
qed

lemma buildTremas_agree:
  assumes "agree g g' k (snd (buildTremas g k depth density baseRadius))"
  shows "buildTremas g' k depth density baseRadius = buildTremas g k depth density baseRadius"
proof (rule prod_eqI)
  from assms have "agree g g' k (k + 3 * (\<Sum>L = 0..<nat depth. nat (levelCount density L)))"
    by (simp add: buildTremas_def snd_buildLevels)
  then show "fst (buildTremas g' k depth density baseRadius) = fst (buildTremas g k depth density baseRadius)"
    by (simp add: buildTremas_def buildLevels_eq levelsFrom_agree)
  show "snd (buildTremas g' k depth density baseRadius) = snd (buildTremas g k depth density baseRadius)"
    by (simp add: buildTremas_def snd_buildLevels)
qed

lemma sampleBody_agree:
  assumes "agree g g' (cursor s) (cursor (sampleBody g tremas s))"
  shows "sampleBody g' tremas s = sampleBody g tremas s"
proof (cases "insideAny tremas (- 1 + 2 * g (cursor s)) (- 1 + 2 * g (cursor s + 1))")
  case True
  then have "cursor (sampleBody g tremas s) = cursor s + 2"
    by (simp add: sampleBody_def rand_def randRange_def)
  with assms have "g' (cursor s) = g (cursor s)" "g' (cursor s + 1) = g (cursor s + 1)"
    by (simp_all add: agree_def)
  with True show ?thesis
    by (simp add: sampleBody_def rand_def randRange_def)
next
  case False
  then have "cursor (sampleBody g tremas s) = cursor s + 5"
    by (simp add: sampleBody_def rand_def randRange_def Let_def)
  with assms have "g' (cursor s) = g (cursor s)" "g' (cursor s + 1) = g (cursor s + 1)"
    "g' (cursor s + 1 + 1) = g (cursor s + 1 + 1)"
    "g' (cursor s + 1 + 1 + 1) = g (cursor s + 1 + 1 + 1)"
    "g' (cursor s + 1 + 1 + 1 + 1) = g (cursor s + 1 + 1 + 1 + 1)"
    by (simp_all add: agree_def)
  with False show ?thesis
    by (simp add: sampleBody_def rand_def randRange_def Let_def)
qed

lemma sampleLoop_agree:
  "agree g g' (cursor s) (cursor (sampleLoop g tremas samples maxAttempts s)) \<Longrightarrow>
   sampleLoop g' tremas samples maxAttempts s = sampleLoop g tremas samples maxAttempts s"
proof (induction g tremas samples maxAttempts s rule: sampleLoop.induct)
  case (1 g tremas samples maxAttempts s)
  show ?case
  proof (cases "sampleCond samples maxAttempts s")
    case True
    then have unfold: "sampleLoop g tremas samples maxAttempts s
        = sampleLoop g tremas samples maxAttempts (sampleBody g tremas s)"
      by (subst sampleLoop.simps) simp
    with "1.prems" have final: "agree g g' (cursor s)
        (cursor (sampleLoop g tremas samples maxAttempts (sampleBody g tremas s)))"
      by simp
    then have "agree g g' (cursor s) (cursor (sampleBody g tremas s))"
      by (rule agree_mono) (simp_all add: cursor_sampleLoop)
    then have body: "sampleBody g' tremas s = sampleBody g tremas s"
      by (rule sampleBody_agree)
    from final have "agree g g' (cursor (sampleBody g tremas s))
        (cursor (sampleLoop g tremas samples maxAttempts (sampleBody g tremas s)))"
      by (rule agree_mono) (simp_all add: cursor_sampleBody)
    from "1.IH" [OF True this] have "sampleLoop g' tremas samples maxAttempts (sampleBody g tremas s)
        = sampleLoop g tremas samples maxAttempts (sampleBody g tremas s)" .
    with True body unfold show ?thesis
      by (subst sampleLoop.simps) simp
  next
    case False
    then show ?thesis
      by (subst sampleLoop.simps, subst (2) sampleLoop.simps) simp
  qed
qed

section \<open>The empty field\<close>

lemma sampleBody_empty:
  "sampleBody g [] s =
     \<lparr>positions = positions s @ [- 1 + 2 * g (cursor s), - 1 + 2 * g (cursor s + 1)],
      colors = colors s @ [0.2 + 0.6 * g (cursor s + 3), 0.35 + 0.55 * g (cursor s + 4),
                0.4 + 0.6 * g (cursor s + 2)],
      levels = levels s @ [0],
      attempts = attempts s + 1, cursor = cursor s + 5\<rparr>"
  by (simp add: sampleBody_def rand_def randRange_def Let_def levelFactor_def levelDivisor_def
      numeral_eq_Suc)

lemma allAccepted_generate: "allAccepted (generatePointsFromTremas g k [] samples)"
  unfolding generatePointsFromTremas_def Let_def
proof (rule sampleLoop_invariant [where P = allAccepted])
  show "allAccepted \<lparr>positions = [], colors = [], levels = [], attempts = 0, cursor = k\<rparr>"
    by (simp add: allAccepted_def)
next
  fix s
  assume "allAccepted s"
  then show "allAccepted (sampleBody g [] s)"
    by (simp add: allAccepted_def sampleBody_empty)
qed

section \<open>The concrete runs\<close>

lemma demoDraws_range: "0 \<le> demoDraws i \<and> demoDraws i < 1"
  by (simp add: demoDraws_def)

lemma demoField_centres:
  "list_all (\<lambda>c. - 1 \<le> cx c \<and> cx c \<le> 1 \<and> - 1 \<le> cy c \<and> cy c \<le> 1) demoField"
  by (simp add: demoField_def)

lemma demoField_Max: "Max (level ` set demoField) = 2"
  by (simp add: demoField_def)

lemma demo_run:
  "generatePointsFromTremas demoDraws 0 demoField 4 =
     \<lparr>positions = [1 / 2, - (3 / 4), 1 / 4, - 1, 0, 3 / 4, - (1 / 4), 1 / 2],
      colors = [29 / 40, 39 / 80, 7 / 10, 13 / 20, 67 / 160, 5 / 8, 23 / 40, 7 / 20,
                11 / 20, 1 / 2, 133 / 160, 19 / 40],
      levels = [1, 1, 1 / 2, 0], attempts = 5, cursor = 22\<rparr>"
  by (simp add: generatePointsFromTremas_def sampleLoop.simps sampleCond_def sampleBody_def
      rand_def randRange_def levelFactor_def levelDivisor_def demoDraws_def demoField_def)

lemma far_run:
  "generatePointsFromTremas demoDraws 0 farField 1 =
     \<lparr>positions = [- 1, - (1 / 4)], colors = [11 / 40, 5 / 8, 17 / 20],
      levels = [0], attempts = 1, cursor = 5\<rparr>"
  by (simp add: generatePointsFromTremas_def sampleLoop.simps sampleCond_def sampleBody_def
      rand_def randRange_def levelFactor_def levelDivisor_def demoDraws_def farField_def)

lemma demo_build:
  "buildTremas demoDraws 0 2 (1 / 100) (1 / 4) =
     ([\<lparr>cx = - 1, cy = - (1 / 4), r = 11 / 40, level = 0\<rparr>,
       \<lparr>cx = - (3 / 4), cy = 0, r = 23 / 160, level = 1\<rparr>], 6)"
  by (simp add: buildTremas_def buildLevels.simps tremasOfLevel.simps pushTrema_def levelCount_def
      rand_def randRange_def demoDraws_def)

lemma demo_empty_run:
  "generatePointsFromTremas demoDraws 6 [] 2 =
     \<lparr>positions = [- (1 / 2), 1 / 4, - (3 / 4), 0],
      colors = [17 / 40, 61 / 80, 2 / 5, 7 / 20, 111 / 160, 37 / 40],
      levels = [0, 0], attempts = 2, cursor = 16\<rparr>"
  by (simp add: generatePointsFromTremas_def sampleLoop.simps sampleCond_def sampleBody_def
      rand_def randRange_def levelFactor_def levelDivisor_def demoDraws_def)

lemma demo_build_24:
  "length (fst (buildTremas demoDraws 0 1 (2 / 5) (9 / 50))) = 24"
  by (simp add: buildTremas_def buildLevels_eq length_levelsFrom levelCount_def)

section \<open>C1: containment\<close>

text \<open>
  C1. For every field, every requested count and every sequence of draws, every point
  the sampler returns lies outside every circle of the field: for point \<open>m\<close> and
  every trema \<open>c\<close>, the squared distance from the point to the centre of \<open>c\<close> is at
  least \<open>r\<^sup>2\<close>. (A point exactly on a circle, at squared distance \<open>r\<^sup>2\<close>, is accepted.)
\<close>

theorem points_outside_every_trema:
  assumes "m < length (levels (generatePointsFromTremas g k tremas samples))"
    and "c \<in> set tremas"
  shows "(r c)\<^sup>2 \<le>
      (positions (generatePointsFromTremas g k tremas samples) ! (2 * m) - cx c)\<^sup>2
    + (positions (generatePointsFromTremas g k tremas samples) ! (2 * m + 1) - cy c)\<^sup>2"
proof -
  have "everyPoint (\<lambda>x y c1 c2 c3 l. \<forall>c\<in>set tremas. (r c)\<^sup>2 \<le> (x - cx c)\<^sup>2 + (y - cy c)\<^sup>2)
          (generatePointsFromTremas g k tremas samples)"
    by (rule everyPoint_generate) (auto simp: insideAny_iff power2_eq_square not_less)
  with assms show ?thesis
    by (simp add: everyPoint_def)
qed

theorem points_outside_every_trema_witness:
  "(2::nat) < length (levels (generatePointsFromTremas demoDraws 0 demoField 4))
   \<and> \<lparr>cx = 1 / 2, cy = 1 / 2, r = 1 / 4, level = 1\<rparr> \<in> set demoField
   \<and> positions (generatePointsFromTremas demoDraws 0 demoField 4) ! (2 * 2) = 0
   \<and> positions (generatePointsFromTremas demoDraws 0 demoField 4) ! (2 * 2 + 1) = 3 / 4
   \<and> (r \<lparr>cx = 1 / 2, cy = 1 / 2, r = 1 / 4, level = 1\<rparr>)\<^sup>2
       \<le> (positions (generatePointsFromTremas demoDraws 0 demoField 4) ! (2 * 2)
            - cx \<lparr>cx = 1 / 2, cy = 1 / 2, r = 1 / 4, level = 1\<rparr>)\<^sup>2
         + (positions (generatePointsFromTremas demoDraws 0 demoField 4) ! (2 * 2 + 1)
            - cy \<lparr>cx = 1 / 2, cy = 1 / 2, r = 1 / 4, level = 1\<rparr>)\<^sup>2"
proof -
  have mem: "\<lparr>cx = 1 / 2, cy = 1 / 2, r = 1 / 4, level = 1\<rparr> \<in> set demoField"
    by (simp add: demoField_def)
  have len: "(2::nat) < length (levels (generatePointsFromTremas demoDraws 0 demoField 4))"
    by (simp add: demo_run)
  from points_outside_every_trema [OF len mem] len mem show ?thesis
    by (simp add: demo_run)
qed

section \<open>C2: the number of tremas per level\<close>

text \<open>
  C2. For every \<open>depth\<close>, \<open>density\<close> and \<open>baseRadius\<close> (and every sequence of draws),
  the number of tremas \<^verbatim>\<open>buildTremas\<close> returns is the sum over the levels
  \<open>L = 0, ..., depth - 1\<close> of \<open>max(1, floor(density * 2^(L+1) * 30))\<close>, and exactly that
  many of them carry the level \<open>L\<close>, for every \<open>L < depth\<close> (none for \<open>L \<ge> depth\<close>).
\<close>

theorem level_count:
  "length (fst (buildTremas g k depth density baseRadius))
     = (\<Sum>L<nat depth. nat (max 1 \<lfloor>density * 2 ^ (L + 1) * 30\<rfloor>))
   \<and> length (filter (\<lambda>c. level c = int L) (fst (buildTremas g k depth density baseRadius)))
     = (if int L < depth then nat (max 1 \<lfloor>density * 2 ^ (L + 1) * 30\<rfloor>) else 0)"
proof -
  have field: "fst (buildTremas g k depth density baseRadius)
      = levelsFrom g depth density baseRadius 0 k"
    by (simp add: buildTremas_def buildLevels_eq)
  have "length (levelsFrom g depth density baseRadius 0 k)
      = (\<Sum>L<nat depth. nat (max 1 \<lfloor>density * 2 ^ (L + 1) * 30\<rfloor>))"
    by (simp add: length_levelsFrom levelCount_def lessThan_atLeast0)
  moreover have "length (filter (\<lambda>c. level c = int L) (levelsFrom g depth density baseRadius 0 k))
      = (if int L < depth then nat (max 1 \<lfloor>density * 2 ^ (L + 1) * 30\<rfloor>) else 0)"
    by (simp add: count_levelsFrom levelCount_def)
  ultimately show ?thesis
    by (simp add: field)
qed

theorem level_count_witness:
  "length (fst (buildTremas demoDraws 0 1 (2 / 5) (9 / 50))) = 24
   \<and> length (filter (\<lambda>c. level c = int 0) (fst (buildTremas demoDraws 0 1 (2 / 5) (9 / 50)))) = 24
   \<and> length (filter (\<lambda>c. level c = int 1) (fst (buildTremas demoDraws 0 1 (2 / 5) (9 / 50)))) = 0"
  using level_count [of demoDraws 0 1 "2 / 5" "9 / 50" 0]
    level_count [of demoDraws 0 1 "2 / 5" "9 / 50" 1]
  by (simp add: demo_build_24)

section \<open>C3: bounded output and attempt budget\<close>

text \<open>
  C3. For every field, every sequence of draws and every requested count \<open>n\<close> (a
  natural number), the sampler returns at most \<open>n\<close> points (\<open>positions.length / 2\<close> is
  the number of points) and its \<^verbatim>\<open>while\<close> loop runs at most \<open>10 * n\<close> times. The
  loop is the total function \<open>sampleLoop\<close>, whose termination is proved with the
  measure \<open>maxAttempts - attempts\<close>, so the sampler returns on every input.
\<close>

theorem sampler_bounded:
  "real (length (positions (generatePointsFromTremas g k tremas (int n)))) / 2 \<le> real n
   \<and> attempts (generatePointsFromTremas g k tremas (int n)) \<le> 10 * n"
  using bounded_generate [of "int n" g k tremas]
  by (auto simp: bounded_def)

theorem sampler_bounded_witness:
  "real (length (positions (generatePointsFromTremas demoDraws 0 demoField (int 4)))) / 2 \<le> real 4
   \<and> attempts (generatePointsFromTremas demoDraws 0 demoField (int 4)) \<le> 10 * 4
   \<and> length (positions (generatePointsFromTremas demoDraws 0 demoField (int 4))) = 8
   \<and> attempts (generatePointsFromTremas demoDraws 0 demoField (int 4)) = 5"
  using sampler_bounded [of demoDraws 0 demoField 4] by (simp add: demo_run)

section \<open>C4: the level factor of a point\<close>

text \<open>
  C4 as stated, for every non-empty field, fails on a field whose only trema is far away:
  the scan of lines 118-124 starts from \<^verbatim>\<open>minD = 1e9\<close> and \<^verbatim>\<open>nearLevel = 0\<close>, and a
  trema at squared distance \<open>1e9\<close> or more never replaces them. With the single trema of
  \<open>farField\<close> (level 3, centre \<open>(40000, 0)\<close>) the first candidate \<open>(-1, -1/4)\<close> is
  accepted with level factor 0, where the level of the nearest trema over the maximum
  level is \<open>3 / 3 = 1\<close>.
\<close>

theorem nearest_level_counterexample:
  "farField \<noteq> []
   \<and> length farField = 1
   \<and> length (levels (generatePointsFromTremas demoDraws 0 farField 1)) = 1
   \<and> positions (generatePointsFromTremas demoDraws 0 farField 1) = [- 1, - (1 / 4)]
   \<and> levels (generatePointsFromTremas demoDraws 0 farField 1) ! 0 = 0
   \<and> real_of_int (level (farField ! 0)) / real_of_int (max 1 (Max (level ` set farField))) = 1
   \<and> levels (generatePointsFromTremas demoDraws 0 farField 1) ! 0
       \<noteq> real_of_int (level (farField ! 0)) / real_of_int (max 1 (Max (level ` set farField)))"
  by (simp add: far_run) (simp add: farField_def)

text \<open>
  C4 (amended). For every field, every requested count, every sequence of draws and
  every returned point \<open>m\<close>, at \<open>(x, y)\<close>:
  \<^item> if some trema has a squared centre distance to \<open>(x, y)\<close> below \<open>1e9\<close>, the level
    factor of the point is the level of the trema \<open>tremas ! j\<close> divided by
    \<open>max(1, maximum level of the field)\<close>, where \<open>j\<close> is the first index at which the
    squared distance is minimal (no trema is nearer, every earlier trema is strictly
    farther);
  \<^item> if every trema is at squared distance \<open>1e9\<close> or more, the level factor is 0;
  \<^item> the first case is the case of every non-empty field whose centres lie in
    \<open>[-1,1]\<^sup>2\<close>, when the draws lie in \<open>[0,1)\<close>: the squared distances are then at most 8.
    These are the fields \<^verbatim>\<open>buildTremas\<close> produces (\<open>buildTremas_centres\<close>).
\<close>

theorem nearest_level_attribution:
  fixes g :: draws and k m :: nat and tremas :: "trema list" and samples :: int
  defines "S \<equiv> generatePointsFromTremas g k tremas samples"
    and "x \<equiv> positions (generatePointsFromTremas g k tremas samples) ! (2 * m)"
    and "y \<equiv> positions (generatePointsFromTremas g k tremas samples) ! (2 * m + 1)"
  assumes "m < length (levels S)"
  shows "((\<exists>c\<in>set tremas. dist2 x y c < 1000000000) \<longrightarrow>
          (\<exists>j<length tremas.
              (\<forall>i<length tremas. dist2 x y (tremas ! j) \<le> dist2 x y (tremas ! i))
            \<and> (\<forall>i<j. dist2 x y (tremas ! j) < dist2 x y (tremas ! i))
            \<and> levels S ! m
                = real_of_int (level (tremas ! j)) / real_of_int (max 1 (Max (level ` set tremas)))))
       \<and> ((\<forall>c\<in>set tremas. 1000000000 \<le> dist2 x y c) \<longrightarrow> levels S ! m = 0)
       \<and> (tremas \<noteq> []
            \<and> (\<forall>c\<in>set tremas. - 1 \<le> cx c \<and> cx c \<le> 1 \<and> - 1 \<le> cy c \<and> cy c \<le> 1)
            \<and> (\<forall>i. 0 \<le> g i \<and> g i < 1) \<longrightarrow>
          (\<exists>c\<in>set tremas. dist2 x y c < 1000000000))"
proof -
  have lf: "levels S ! m = levelFactor tremas x y"
    using assms(4) unfolding S_def x_def y_def by (rule levels_are_levelFactor)
  have "\<exists>c\<in>set tremas. dist2 x y c < 1000000000"
    if "tremas \<noteq> []"
      and "\<forall>c\<in>set tremas. - 1 \<le> cx c \<and> cx c \<le> 1 \<and> - 1 \<le> cy c \<and> cy c \<le> 1"
      and "\<forall>i. 0 \<le> g i \<and> g i < 1"
    using that assms(4) unfolding S_def x_def y_def by (rule near_in_square)
  with levelFactor_near [of tremas x y] levelFactor_far [of tremas x y] show ?thesis
    by (simp add: lf)
qed

theorem nearest_level_attribution_witness:
  "(2::nat) < length (levels (generatePointsFromTremas demoDraws 0 demoField 4))
   \<and> positions (generatePointsFromTremas demoDraws 0 demoField 4) ! (2 * 2) = 0
   \<and> positions (generatePointsFromTremas demoDraws 0 demoField 4) ! (2 * 2 + 1) = 3 / 4
   \<and> demoField \<noteq> []
   \<and> list_all (\<lambda>c. - 1 \<le> cx c \<and> cx c \<le> 1 \<and> - 1 \<le> cy c \<and> cy c \<le> 1) demoField
   \<and> (\<forall>i. 0 \<le> demoDraws i \<and> demoDraws i < 1)
   \<and> (\<exists>c. c \<in> set demoField \<and> dist2 0 (3 / 4) c < 1000000000)
   \<and> (\<exists>j<length demoField.
        (\<forall>i<length demoField. dist2 0 (3 / 4) (demoField ! j) \<le> dist2 0 (3 / 4) (demoField ! i))
      \<and> (\<forall>i<j. dist2 0 (3 / 4) (demoField ! j) < dist2 0 (3 / 4) (demoField ! i))
      \<and> levels (generatePointsFromTremas demoDraws 0 demoField 4) ! 2
          = real_of_int (level (demoField ! j)) / real_of_int (max 1 2))
   \<and> levels (generatePointsFromTremas demoDraws 0 demoField 4) ! 2 = 1 / 2
   \<and> (0::nat) < length (levels (generatePointsFromTremas demoDraws 0 farField 1))
   \<and> list_all (\<lambda>c. 1000000000 \<le> dist2 (- 1) (- (1 / 4)) c) farField
   \<and> levels (generatePointsFromTremas demoDraws 0 farField 1) ! 0 = 0"
proof -
  have len: "(2::nat) < length (levels (generatePointsFromTremas demoDraws 0 demoField 4))"
    by (simp add: demo_run)
  have ne: "demoField \<noteq> []"
    by (simp add: demoField_def)
  have centres: "\<forall>c\<in>set demoField. - 1 \<le> cx c \<and> cx c \<le> 1 \<and> - 1 \<le> cy c \<and> cy c \<le> 1"
    using demoField_centres by (simp add: list_all_iff)
  have draws: "\<forall>i. 0 \<le> demoDraws i \<and> demoDraws i < 1"
    by (simp add: demoDraws_range)
  have pos: "positions (generatePointsFromTremas demoDraws 0 demoField 4) ! (2 * 2) = 0"
    "positions (generatePointsFromTremas demoDraws 0 demoField 4) ! (2 * 2 + 1) = 3 / 4"
    "levels (generatePointsFromTremas demoDraws 0 demoField 4) ! 2 = 1 / 2"
    by (simp_all add: demo_run)
  have len': "(0::nat) < length (levels (generatePointsFromTremas demoDraws 0 farField 1))"
    by (simp add: far_run)
  have far: "list_all (\<lambda>c. 1000000000 \<le> dist2 (- 1) (- (1 / 4)) c) farField"
    by (simp add: farField_def dist2_def)
  from nearest_level_attribution [OF len] ne centres draws
  have near: "\<exists>c\<in>set demoField. dist2 0 (3 / 4) c < 1000000000"
    by (simp add: demo_run)
  with nearest_level_attribution [OF len]
  have A: "\<exists>j<length demoField.
        (\<forall>i<length demoField. dist2 0 (3 / 4) (demoField ! j) \<le> dist2 0 (3 / 4) (demoField ! i))
      \<and> (\<forall>i<j. dist2 0 (3 / 4) (demoField ! j) < dist2 0 (3 / 4) (demoField ! i))
      \<and> levels (generatePointsFromTremas demoDraws 0 demoField 4) ! 2
          = real_of_int (level (demoField ! j)) / real_of_int (max 1 2)"
    by (simp add: demo_run demoField_Max)
  from nearest_level_attribution [OF len'] far
  have B: "levels (generatePointsFromTremas demoDraws 0 farField 1) ! 0 = 0"
    by (simp add: far_run list_all_iff)
  from near have near': "\<exists>c. c \<in> set demoField \<and> dist2 0 (3 / 4) c < 1000000000"
    by blast
  from len pos ne demoField_centres draws near' A len' far B show ?thesis
    by blast
qed

section \<open>C5: the empty field\<close>

text \<open>
  C5. \<^verbatim>\<open>buildTremas\<close> with \<open>depth = 0\<close> returns the empty field and draws nothing.
  Against the empty field, for every requested count \<open>n \<ge> 0\<close>, the sampler accepts
  every candidate: it returns exactly \<open>n\<close> points after exactly \<open>n\<close> iterations (none
  when \<open>n = 0\<close>), each with level factor 0. The functions of the model are total and
  have no error value, as the source has no \<^verbatim>\<open>throw\<close>.
\<close>

theorem empty_field:
  assumes "0 \<le> n"
  shows "buildTremas g k 0 density baseRadius = ([], k)
       \<and> int (length (levels (generatePointsFromTremas g k' [] n))) = n
       \<and> length (positions (generatePointsFromTremas g k' [] n)) = 2 * nat n
       \<and> length (colors (generatePointsFromTremas g k' [] n)) = 3 * nat n
       \<and> attempts (generatePointsFromTremas g k' [] n) = nat n
       \<and> (\<forall>m<nat n. levels (generatePointsFromTremas g k' [] n) ! m = 0)"
proof -
  let ?S = "generatePointsFromTremas g k' [] n"
  have acc: "attempts ?S = length (levels ?S)" and zero: "set (levels ?S) \<subseteq> {0}"
    using allAccepted_generate [of g k' n] by (simp_all add: allAccepted_def)
  have lp: "length (positions ?S) = 2 * length (levels ?S)"
    and lc: "length (colors ?S) = 3 * length (levels ?S)"
    using batch_lengths [of g k' "[]" n] by simp_all
  have le: "int (length (levels ?S)) \<le> n"
    using bounded_generate [of n g k' "[]"] assms by (simp add: bounded_def)
  have "\<not> (real (length (positions ?S)) / 2 < real_of_int n \<and> int (attempts ?S) < n * 10)"
    using generate_exit [of n g k' "[]"] by (simp add: sampleCond_def)
  with lp acc assms have "n \<le> int (length (levels ?S))"
    by (auto simp: not_less)
  with le have len: "int (length (levels ?S)) = n"
    by simp
  then have len': "length (levels ?S) = nat n"
    by simp
  have "levels ?S ! m = 0" if "m < nat n" for m
  proof -
    from that len' have "levels ?S ! m \<in> set (levels ?S)"
      by simp
    with zero show ?thesis
      by auto
  qed
  then have "\<forall>m<nat n. levels ?S ! m = 0"
    by simp
  with len len' lp lc acc show ?thesis
    by (simp add: buildTremas_depth_0)
qed

theorem empty_field_witness:
  "(0::int) \<le> 2
   \<and> buildTremas demoDraws 6 0 (2 / 5) (9 / 50) = ([], 6)
   \<and> int (length (levels (generatePointsFromTremas demoDraws 6 [] 2))) = 2
   \<and> length (positions (generatePointsFromTremas demoDraws 6 [] 2)) = 2 * nat 2
   \<and> length (colors (generatePointsFromTremas demoDraws 6 [] 2)) = 3 * nat 2
   \<and> attempts (generatePointsFromTremas demoDraws 6 [] 2) = nat 2
   \<and> levels (generatePointsFromTremas demoDraws 6 [] 2) ! 1 = 0
   \<and> positions (generatePointsFromTremas demoDraws 6 [] 2) = [- (1 / 2), 1 / 4, - (3 / 4), 0]"
  using empty_field [of 2 demoDraws 6 "2 / 5" "9 / 50" 6] by (simp add: demo_empty_run)

section \<open>C6: the tremas of a field\<close>

text \<open>
  C6. Let every draw lie in \<open>[0,1)\<close> and let \<open>baseRadius > 0\<close>. Every trema \<open>c\<close> that
  \<^verbatim>\<open>buildTremas\<close> returns has a level in \<open>[0, depth - 1]\<close> and the radius
  \<open>baseRadius * 0.5^level * (0.8 + 0.4 * u)\<close> for a draw \<open>u\<close> in \<open>[0,1)\<close>; hence its radius
  is positive and lies in \<open>[0.8, 1.2)\<close> times the level radius \<open>baseRadius * 0.5^level\<close>.
  The level radius strictly decreases as the level increases.
\<close>

theorem circle_field_invariant:
  assumes "\<forall>i. 0 \<le> g i \<and> g i < 1"
    and "0 < baseRadius"
    and "c \<in> set (fst (buildTremas g k depth density baseRadius))"
  shows "0 \<le> level c \<and> level c \<le> depth - 1
       \<and> (\<exists>j. 0 \<le> g j \<and> g j < 1
              \<and> r c = baseRadius * 0.5 ^ nat (level c) * (0.8 + 0.4 * g j))
       \<and> 0 < r c
       \<and> 0.8 * (baseRadius * 0.5 ^ nat (level c)) \<le> r c
       \<and> r c < 1.2 * (baseRadius * 0.5 ^ nat (level c))
       \<and> (\<forall>L1 L2. L1 < L2 \<longrightarrow> baseRadius * 0.5 ^ L2 < baseRadius * 0.5 ^ L1)"
proof -
  from buildTremas_shape [OF assms(3)] obtain L j where L: "int L < depth"
    and c: "c = \<lparr>cx = - 1 + 2 * g j, cy = - 1 + 2 * g (j + 1),
          r = baseRadius * 0.5 ^ L * (0.8 + 0.4 * g (j + 2)), level = int L\<rparr>"
    by blast
  define u where "u = g (j + 2)"
  define lr where "lr = baseRadius * 0.5 ^ L"
  from assms(1) have u: "0 \<le> u" "u < 1"
    by (simp_all add: u_def)
  from assms(2) have lr: "0 < lr"
    by (simp add: lr_def)
  from c have lev: "level c = int L" and rc: "r c = lr * (0.8 + 0.4 * u)"
    by (simp_all add: lr_def u_def)
  have "0 \<le> lr * u"
    using lr u by simp
  moreover have "lr * u < lr * 1"
    using lr u by (intro mult_strict_left_mono)
  ultimately have bounds: "0 < r c" "0.8 * lr \<le> r c" "r c < 1.2 * lr"
    using lr by (simp_all add: rc algebra_simps)
  have "r c = baseRadius * 0.5 ^ nat (level c) * (0.8 + 0.4 * g (j + 2))"
    using rc lev by (simp add: lr_def u_def)
  with u have "\<exists>j. 0 \<le> g j \<and> g j < 1 \<and> r c = baseRadius * 0.5 ^ nat (level c) * (0.8 + 0.4 * g j)"
    unfolding u_def by blast
  moreover have "\<forall>L1 L2. L1 < L2 \<longrightarrow> baseRadius * 0.5 ^ L2 < baseRadius * 0.5 ^ L1"
    using assms(2) by (simp add: levelRadius_decreasing)
  moreover have "0.8 * (baseRadius * 0.5 ^ nat (level c)) \<le> r c"
    and "r c < 1.2 * (baseRadius * 0.5 ^ nat (level c))"
    using bounds lev by (simp_all add: lr_def)
  ultimately show ?thesis
    using bounds(1) lev L by simp
qed

theorem circle_field_invariant_witness:
  "(\<forall>i. 0 \<le> demoDraws i \<and> demoDraws i < 1)
   \<and> (0::real) < 1 / 4
   \<and> \<lparr>cx = - (3 / 4), cy = 0, r = 23 / 160, level = 1\<rparr>
       \<in> set (fst (buildTremas demoDraws 0 2 (1 / 100) (1 / 4)))
   \<and> level \<lparr>cx = - (3 / 4), cy = 0, r = 23 / 160, level = 1\<rparr> \<le> 2 - 1
   \<and> (\<exists>j. 0 \<le> demoDraws j \<and> demoDraws j < 1
          \<and> (23 / 160 :: real) = 1 / 4 * 0.5 ^ nat 1 * (0.8 + 0.4 * demoDraws j))
   \<and> 0.8 * (1 / 4 * 0.5 ^ nat 1) \<le> (23 / 160 :: real)
   \<and> (23 / 160 :: real) < 1.2 * (1 / 4 * 0.5 ^ nat 1)
   \<and> (1 / 4 :: real) * 0.5 ^ (1::nat) < 1 / 4 * 0.5 ^ (0::nat)"
proof -
  have draws: "\<forall>i. 0 \<le> demoDraws i \<and> demoDraws i < 1"
    by (simp add: demoDraws_range)
  have pos: "(0::real) < 1 / 4"
    by simp
  have mem: "\<lparr>cx = - (3 / 4), cy = 0, r = 23 / 160, level = 1\<rparr>
      \<in> set (fst (buildTremas demoDraws 0 2 (1 / 100) (1 / 4)))"
    by (simp add: demo_build)
  from circle_field_invariant [OF draws pos mem] draws mem show ?thesis
    by simp
qed

section \<open>C7: the range of the level factor\<close>



section \<open>C8: determinism under fixed draws\<close>

text \<open>
  C8. With the random source replaced by a sequence of draws, \<^verbatim>\<open>buildTremas\<close> and
  \<^verbatim>\<open>generatePointsFromTremas\<close> are functions of their arguments and of the draws
  they consume: two runs with the same arguments, from the same position \<open>k\<close> of two
  sequences \<open>g\<close> and \<open>g'\<close> that agree on the draws the first run consumes (in
  particular, of the same sequence), return the same result and leave the random source
  at the same position.
\<close>

theorem deterministic_given_draws:
  "(agree g g' k (snd (buildTremas g k depth density baseRadius)) \<longrightarrow>
      buildTremas g' k depth density baseRadius = buildTremas g k depth density baseRadius)
   \<and> (agree g g' k (cursor (generatePointsFromTremas g k tremas samples)) \<longrightarrow>
      generatePointsFromTremas g' k tremas samples = generatePointsFromTremas g k tremas samples)"
proof (intro conjI impI)
  assume "agree g g' k (snd (buildTremas g k depth density baseRadius))"
  then show "buildTremas g' k depth density baseRadius = buildTremas g k depth density baseRadius"
    by (rule buildTremas_agree)
next
  assume "agree g g' k (cursor (generatePointsFromTremas g k tremas samples))"
  then show "generatePointsFromTremas g' k tremas samples = generatePointsFromTremas g k tremas samples"
    unfolding generatePointsFromTremas_def Let_def
    using sampleLoop_agree [of g g' "\<lparr>positions = [], colors = [], levels = [], attempts = 0, cursor = k\<rparr>"
        tremas samples "samples * 10"]
    by simp
qed

theorem deterministic_given_draws_witness:
  "demoDraws2 22 \<noteq> demoDraws 22
   \<and> snd (buildTremas demoDraws 0 2 (1 / 100) (1 / 4)) = 6
   \<and> cursor (generatePointsFromTremas demoDraws 0 demoField 4) = 22
   \<and> buildTremas demoDraws2 0 2 (1 / 100) (1 / 4) = buildTremas demoDraws 0 2 (1 / 100) (1 / 4)
   \<and> generatePointsFromTremas demoDraws2 0 demoField 4 = generatePointsFromTremas demoDraws 0 demoField 4"
proof -
  have a1: "agree demoDraws demoDraws2 0 (snd (buildTremas demoDraws 0 2 (1 / 100) (1 / 4)))"
    by (simp add: demo_build agree_def demoDraws2_def)
  have a2: "agree demoDraws demoDraws2 0 (cursor (generatePointsFromTremas demoDraws 0 demoField 4))"
    by (simp add: demo_run agree_def demoDraws2_def)
  have differ: "demoDraws2 22 \<noteq> demoDraws 22"
    by (simp add: demoDraws2_def demoDraws_def)
  from deterministic_given_draws [of demoDraws demoDraws2 0 2 "1 / 100" "1 / 4" demoField 4] a1 a2 differ
  show ?thesis
    by (simp add: demo_build demo_run)
qed

section \<open>C9: parallel arrays\<close>

text \<open>
  C9. The three arrays of the returned batch are parallel: with \<open>N\<close> the length of
  \<open>levels\<close>, \<open>positions\<close> has \<open>2 * N\<close> components and \<open>colors\<close> has \<open>3 * N\<close>, for
  every field, every requested count and every sequence of draws.
\<close>

theorem batch_arrays_parallel:
  "length (positions (generatePointsFromTremas g k tremas samples))
     = 2 * length (levels (generatePointsFromTremas g k tremas samples))
   \<and> length (colors (generatePointsFromTremas g k tremas samples))
     = 3 * length (levels (generatePointsFromTremas g k tremas samples))"
  unfolding generatePointsFromTremas_def Let_def
proof (rule sampleLoop_invariant
    [where P = "\<lambda>s. length (positions s) = 2 * length (levels s)
                  \<and> length (colors s) = 3 * length (levels s)"])
  show "length (positions \<lparr>positions = [], colors = [], levels = [], attempts = 0, cursor = k\<rparr>)
      = 2 * length (levels \<lparr>positions = [], colors = [], levels = [], attempts = 0, cursor = k\<rparr>)
    \<and> length (colors \<lparr>positions = [], colors = [], levels = [], attempts = 0, cursor = k\<rparr>)
      = 3 * length (levels \<lparr>positions = [], colors = [], levels = [], attempts = 0, cursor = k\<rparr>)"
    by simp
next
  fix s :: sampler
  assume "length (positions s) = 2 * length (levels s) \<and> length (colors s) = 3 * length (levels s)"
  then show "length (positions (sampleBody g tremas s)) = 2 * length (levels (sampleBody g tremas s))
      \<and> length (colors (sampleBody g tremas s)) = 3 * length (levels (sampleBody g tremas s))"
    by (simp add: lengths_sampleBody)
qed

section \<open>C10: the colour channels\<close>

text \<open>
  C10. Let every draw lie in \<open>[0,1)\<close>. For every returned point \<open>m\<close>, the three
  colour channels are the affine images \<open>0.2 + 0.6 * u1\<close>, \<open>0.35 + 0.55 * u2\<close> and
  \<open>0.4 + 0.6 * u0\<close> of three consecutive draws \<open>u0, u1, u2\<close>, and so lie in
  \<open>[0.2, 0.8)\<close>, \<open>[0.35, 0.9)\<close> and \<open>[0.4, 1)\<close>; every component of \<open>colors\<close> lies in
  \<open>[0,1]\<close>. No trema enters these expressions: the field only decides which draws
  are the point's. (The draws are a given sequence; their distribution is not modelled.)
\<close>

theorem color_channels:
  assumes "\<forall>i. 0 \<le> g i \<and> g i < 1"
    and "m < length (levels (generatePointsFromTremas g k tremas samples))"
  shows "(\<exists>j. colors (generatePointsFromTremas g k tremas samples) ! (3 * m) = 0.2 + 0.6 * g (j + 1)
           \<and> colors (generatePointsFromTremas g k tremas samples) ! (3 * m + 1) = 0.35 + 0.55 * g (j + 2)
           \<and> colors (generatePointsFromTremas g k tremas samples) ! (3 * m + 2) = 0.4 + 0.6 * g j)
       \<and> 0.2 \<le> colors (generatePointsFromTremas g k tremas samples) ! (3 * m)
       \<and> colors (generatePointsFromTremas g k tremas samples) ! (3 * m) < 0.8
       \<and> 0.35 \<le> colors (generatePointsFromTremas g k tremas samples) ! (3 * m + 1)
       \<and> colors (generatePointsFromTremas g k tremas samples) ! (3 * m + 1) < 0.9
       \<and> 0.4 \<le> colors (generatePointsFromTremas g k tremas samples) ! (3 * m + 2)
       \<and> colors (generatePointsFromTremas g k tremas samples) ! (3 * m + 2) < 1
       \<and> (\<forall>i<length (colors (generatePointsFromTremas g k tremas samples)).
            0 \<le> colors (generatePointsFromTremas g k tremas samples) ! i
          \<and> colors (generatePointsFromTremas g k tremas samples) ! i \<le> 1)"
proof -
  let ?S = "generatePointsFromTremas g k tremas samples"
  have every: "everyPoint (\<lambda>x y c1 c2 c3 l.
          \<exists>j. c1 = 0.2 + 0.6 * g (j + 1) \<and> c2 = 0.35 + 0.55 * g (j + 2) \<and> c3 = 0.4 + 0.6 * g j) ?S"
  proof (rule everyPoint_generate)
    fix j
    show "\<exists>ja. 0.2 + 0.6 * g (j + 3) = 0.2 + 0.6 * g (ja + 1)
        \<and> 0.35 + 0.55 * g (j + 4) = 0.35 + 0.55 * g (ja + 2)
        \<and> 0.4 + 0.6 * g (j + 2) = 0.4 + 0.6 * g ja"
      by (rule exI [of _ "j + 2"]) (simp add: eval_nat_numeral)
  qed
  have point: "\<exists>j. colors ?S ! (3 * n) = 0.2 + 0.6 * g (j + 1)
      \<and> colors ?S ! (3 * n + 1) = 0.35 + 0.55 * g (j + 2)
      \<and> colors ?S ! (3 * n + 2) = 0.4 + 0.6 * g j"
    if "n < length (levels ?S)" for n
    using every that by (simp add: everyPoint_def)
  have range: "0.2 \<le> colors ?S ! (3 * n) \<and> colors ?S ! (3 * n) < 0.8
      \<and> 0.35 \<le> colors ?S ! (3 * n + 1) \<and> colors ?S ! (3 * n + 1) < 0.9
      \<and> 0.4 \<le> colors ?S ! (3 * n + 2) \<and> colors ?S ! (3 * n + 2) < 1"
    if "n < length (levels ?S)" for n
  proof -
    from point [OF that] obtain j where
      j: "colors ?S ! (3 * n) = 0.2 + 0.6 * g (j + 1)"
         "colors ?S ! (3 * n + 1) = 0.35 + 0.55 * g (j + 2)"
         "colors ?S ! (3 * n + 2) = 0.4 + 0.6 * g j"
      by blast
    from assms(1) have "0 \<le> g (j + 1)" "g (j + 1) < 1" "0 \<le> g (j + 2)" "g (j + 2) < 1"
      "0 \<le> g j" "g j < 1"
      by simp_all
    with j show ?thesis
      by simp
  qed
  have unit: "0 \<le> colors ?S ! i \<and> colors ?S ! i \<le> 1" if "i < length (colors ?S)" for i
  proof -
    from that have n: "i div 3 < length (levels ?S)"
      by (simp add: batch_lengths less_mult_imp_div_less mult.commute)
    have "i mod 3 = 0 \<or> i mod 3 = 1 \<or> i mod 3 = 2"
      by presburger
    then have "i = 3 * (i div 3) \<or> i = 3 * (i div 3) + 1 \<or> i = 3 * (i div 3) + 2"
      by presburger
    with range [OF n] show ?thesis
      by (elim disjE) (erule ssubst, simp)+
  qed
  from point [OF assms(2)] range [OF assms(2)] unit show ?thesis
    by blast
qed

theorem color_channels_witness:
  "(\<forall>i. 0 \<le> demoDraws i \<and> demoDraws i < 1)
   \<and> (2::nat) < length (levels (generatePointsFromTremas demoDraws 0 demoField 4))
   \<and> colors (generatePointsFromTremas demoDraws 0 demoField 4) ! (3 * 2) = 23 / 40
   \<and> colors (generatePointsFromTremas demoDraws 0 demoField 4) ! (3 * 2 + 1) = 7 / 20
   \<and> colors (generatePointsFromTremas demoDraws 0 demoField 4) ! (3 * 2 + 2) = 11 / 20
   \<and> (\<exists>j. colors (generatePointsFromTremas demoDraws 0 demoField 4) ! (3 * 2) = 0.2 + 0.6 * demoDraws (j + 1)
          \<and> colors (generatePointsFromTremas demoDraws 0 demoField 4) ! (3 * 2 + 1) = 0.35 + 0.55 * demoDraws (j + 2)
          \<and> colors (generatePointsFromTremas demoDraws 0 demoField 4) ! (3 * 2 + 2) = 0.4 + 0.6 * demoDraws j)
   \<and> 0.2 \<le> colors (generatePointsFromTremas demoDraws 0 demoField 4) ! (3 * 2)
   \<and> colors (generatePointsFromTremas demoDraws 0 demoField 4) ! (3 * 2) < 0.8
   \<and> 0.35 \<le> colors (generatePointsFromTremas demoDraws 0 demoField 4) ! (3 * 2 + 1)
   \<and> colors (generatePointsFromTremas demoDraws 0 demoField 4) ! (3 * 2 + 1) < 0.9
   \<and> 0.4 \<le> colors (generatePointsFromTremas demoDraws 0 demoField 4) ! (3 * 2 + 2)
   \<and> colors (generatePointsFromTremas demoDraws 0 demoField 4) ! (3 * 2 + 2) < 1"
proof -
  have draws: "\<forall>i. 0 \<le> demoDraws i \<and> demoDraws i < 1"
    by (simp add: demoDraws_range)
  have len: "(2::nat) < length (levels (generatePointsFromTremas demoDraws 0 demoField 4))"
    by (simp add: demo_run)
  have vals: "colors (generatePointsFromTremas demoDraws 0 demoField 4) ! (3 * 2) = 23 / 40"
    "colors (generatePointsFromTremas demoDraws 0 demoField 4) ! (3 * 2 + 1) = 7 / 20"
    "colors (generatePointsFromTremas demoDraws 0 demoField 4) ! (3 * 2 + 2) = 11 / 20"
    by (simp_all add: demo_run)
  from color_channels [OF draws len] draws len vals show ?thesis
    by blast
qed

end
